theory Spec2Isabelle
  imports Main "HOL-Library.AList" "HOL-Library.Word"
begin

section \<open>JavaScript values and the string operations the pipeline uses\<close>

text \<open>
  The lead pipeline of AZLeads is TypeScript. Values that flow through the field
  transformer are JSON values read from the raw tracking payload or the lead row, plus
  JavaScript's \<open>undefined\<close> for a missing property. Numbers are modelled as
  integers: the code only tests them for truthiness and positivity.
\<close>

datatype jsval =
    Undefined
  | Null
  | JBool bool
  | JNum int
  | JStr string
  | JArr "jsval list"
  | JObj "(string \<times> jsval) list"

text \<open>JavaScript truthiness, as used by \<open>||\<close>, \<open>&&\<close>, \<open>!\<close> and \<open>if\<close>.\<close>

fun truthy :: "jsval \<Rightarrow> bool" where
  "truthy Undefined = False"
| "truthy Null = False"
| "truthy (JBool b) = b"
| "truthy (JNum n) = (n \<noteq> 0)"
| "truthy (JStr s) = (s \<noteq> [])"
| "truthy (JArr xs) = True"
| "truthy (JObj kvs) = True"

text \<open>\<open>a || b\<close>\<close>

definition jsOr :: "jsval \<Rightarrow> jsval \<Rightarrow> jsval" where
  "jsOr a b = (if truthy a then a else b)"

text \<open>\<open>obj[key]\<close> on a plain object: \<open>undefined\<close> when the key is absent.\<close>

definition jsGet :: "(string \<times> jsval) list \<Rightarrow> string \<Rightarrow> jsval" where
  "jsGet obj k = (case map_of obj k of None \<Rightarrow> Undefined | Some v \<Rightarrow> v)"

text \<open>A nullable text column read into a JavaScript value.\<close>

definition nullable :: "string option \<Rightarrow> jsval" where
  "nullable x = (case x of None \<Rightarrow> Null | Some s \<Rightarrow> JStr s)"

text \<open>\<open>value !== undefined && value !== null\<close>\<close>

definition present :: "jsval \<Rightarrow> bool" where
  "present v = (v \<noteq> Undefined \<and> v \<noteq> Null)"

text \<open>
  Object spread \<open>{...base, ...extra}\<close>: the properties of \<open>extra\<close> are written
  over \<open>base\<close> in order, a later writer of a key replacing its value.
\<close>

definition spread :: "(string \<times> jsval) list \<Rightarrow> (string \<times> jsval) list \<Rightarrow> (string \<times> jsval) list" where
  "spread base extra = foldl (\<lambda>acc kv. AList.update (fst kv) (snd kv) acc) base extra"

subsection \<open>Strings\<close>

text \<open>
  Strings are byte lists. Case mapping and white space are those of ASCII; the
  pipeline's own literals and the hexadecimal digests are ASCII.
\<close>

definition isSpace :: "char \<Rightarrow> bool" where
  "isSpace c = (c = CHR '' '' \<or> c = CHR 0x09 \<or> c = CHR 0x0A \<or> c = CHR 0x0B
     \<or> c = CHR 0x0C \<or> c = CHR 0x0D)"

definition isDigit :: "char \<Rightarrow> bool" where
  "isDigit c = (48 \<le> (of_char c :: nat) \<and> (of_char c :: nat) \<le> 57)"

definition toUpperChar :: "char \<Rightarrow> char" where
  "toUpperChar c =
     (if 97 \<le> (of_char c :: nat) \<and> (of_char c :: nat) \<le> 122
      then char_of ((of_char c :: nat) - 32) else c)"

definition toLowerChar :: "char \<Rightarrow> char" where
  "toLowerChar c =
     (if 65 \<le> (of_char c :: nat) \<and> (of_char c :: nat) \<le> 90
      then char_of ((of_char c :: nat) + 32) else c)"

definition toUpperCase :: "string \<Rightarrow> string" where
  "toUpperCase s = map toUpperChar s"

definition toLowerCase :: "string \<Rightarrow> string" where
  "toLowerCase s = map toLowerChar s"

definition trim :: "string \<Rightarrow> string" where
  "trim s = rev (dropWhile isSpace (rev (dropWhile isSpace s)))"

text \<open>
  \<open>String.prototype.split\<close> with a one-character separator: never empty, the
  pieces between the separators.
\<close>

fun splitOn :: "char \<Rightarrow> string \<Rightarrow> string list" where
  "splitOn c [] = [[]]"
| "splitOn c (x # xs) =
     (if x = c then [] # splitOn c xs
      else (case splitOn c xs of [] \<Rightarrow> [[x]] | y # ys \<Rightarrow> (x # y) # ys))"

text \<open>
  \<open>template.replace(pattern, replacement)\<close> with a string pattern: only the first
  occurrence is replaced, and in the replacement \<open>$$\<close>, \<open>$&\<close>, \<open>$`\<close> and
  \<open>$'\<close> stand for a dollar sign, the match, the text before it and the text after it.
\<close>

fun findSub :: "string \<Rightarrow> string \<Rightarrow> (string \<times> string) option" where
  "findSub pat [] = (if pat = [] then Some ([], []) else None)"
| "findSub pat (c # cs) =
     (if take (length pat) (c # cs) = pat then Some ([], drop (length pat) (c # cs))
      else map_option (\<lambda>ba. (c # fst ba, snd ba)) (findSub pat cs))"

fun expandRepl :: "string \<Rightarrow> string \<Rightarrow> string \<Rightarrow> string \<Rightarrow> string" where
  "expandRepl m b a [] = []"
| "expandRepl m b a [c] = [c]"
| "expandRepl m b a (c # d # r) =
     (if c = CHR ''$'' \<and> d = CHR ''$'' then CHR ''$'' # expandRepl m b a r
      else if c = CHR ''$'' \<and> d = CHR ''&'' then m @ expandRepl m b a r
      else if c = CHR ''$'' \<and> d = CHR 0x60 then b @ expandRepl m b a r
      else if c = CHR ''$'' \<and> d = CHR 0x27 then a @ expandRepl m b a r
      else c # expandRepl m b a (d # r))"

definition stringReplace :: "string \<Rightarrow> string \<Rightarrow> string \<Rightarrow> string" where
  "stringReplace s pat repl =
     (case findSub pat s of
        None \<Rightarrow> s
      | Some ba \<Rightarrow> fst ba @ expandRepl pat (fst ba) (snd ba) repl @ snd ba)"

text \<open>
  \<open>parseInt(s, 10)\<close>: leading white space, an optional sign, then the longest run of
  decimal digits; \<open>NaN\<close> (here \<open>None\<close>) when there is no digit.
\<close>

definition digitsValue :: "string \<Rightarrow> int" where
  "digitsValue ds = foldl (\<lambda>acc c. 10 * acc + (int (of_char c) - 48)) 0 ds"

definition parseInt10 :: "string \<Rightarrow> int option" where
  "parseInt10 s =
     (let t = dropWhile isSpace s;
          neg = (t \<noteq> [] \<and> hd t = CHR ''-'');
          u = (if t \<noteq> [] \<and> (hd t = CHR ''-'' \<or> hd t = CHR ''+'') then tl t else t);
          ds = takeWhile isDigit u
      in if ds = [] then None
         else Some (if neg then - digitsValue ds else digitsValue ds))"

text \<open>\<open>n.toString()\<close> of an integer.\<close>

definition digitChar :: "nat \<Rightarrow> char" where
  "digitChar d = ''0123456789'' ! d"

function decimal :: "int \<Rightarrow> string" where
  "decimal n =
     (if n < 0 then CHR ''-'' # decimal (- n)
      else if n < 10 then [digitChar (nat n)]
      else decimal (n div 10) @ [digitChar (nat (n mod 10))])"
  by pat_completeness auto
termination
  by (relation "measure (\<lambda>n. if n < 0 then nat (- n) + 1 else nat n)") auto

subsection \<open>Hexadecimal digests and buffers\<close>

text \<open>
  \<open>digest('hex')\<close> writes each byte as two lower-case hexadecimal digits.
  \<open>Buffer.from(s, 'hex')\<close> reads pairs of hexadecimal digits of either case and
  stops at the first pair that is not one (or at a trailing single character).
  \<open>crypto.timingSafeEqual\<close> throws when the two buffers differ in length.
\<close>

definition hexDigit :: "nat \<Rightarrow> char" where
  "hexDigit n = (if n < 10 then char_of (48 + n) else char_of (87 + n))"

definition hexByte :: "8 word \<Rightarrow> string" where
  "hexByte b = [hexDigit (unat b div 16), hexDigit (unat b mod 16)]"

definition digestHex :: "8 word list \<Rightarrow> string" where
  "digestHex bs = concat (map hexByte bs)"

definition unhex :: "char \<Rightarrow> nat option" where
  "unhex c =
     (let n = (of_char c :: nat)
      in if 48 \<le> n \<and> n \<le> 57 then Some (n - 48)
         else if 97 \<le> n \<and> n \<le> 102 then Some (n - 87)
         else if 65 \<le> n \<and> n \<le> 70 then Some (n - 55)
         else None)"

fun bufferFromHex :: "string \<Rightarrow> 8 word list" where
  "bufferFromHex (a # b # rest) =
     (case unhex a of
        None \<Rightarrow> []
      | Some x \<Rightarrow>
          (case unhex b of
             None \<Rightarrow> []
           | Some y \<Rightarrow> of_nat (16 * x + y) # bufferFromHex rest))"
| "bufferFromHex [a] = []"
| "bufferFromHex [] = []"

definition timingSafeEqual :: "8 word list \<Rightarrow> 8 word list \<Rightarrow> bool option" where
  "timingSafeEqual a b = (if length a \<noteq> length b then None else Some (a = b))"

section \<open>Data model\<close>

text \<open>
  The rows of the store, as the Prisma client returns them. A lead carries the raw
  payload of its traffic log (\<open>lead.trafficLog.rawPayload\<close>; the traffic log is a
  required relation). The advertiser's secret is a text column, empty when the
  advertiser has none.
\<close>

datatype lead_status = Pending | Forwarded | NoMapping | ForwardFailed | Approved | Rejected

record advertiser =
  advId :: string
  endpointUrl :: string
  endpointSecret :: string

record lead =
  leadId :: string
  azTxId :: string
  affiliateId :: string
  offerId :: "string option"
  advertiserId :: "string option"
  email :: "string option"
  phone :: "string option"
  firstName :: "string option"
  lastName :: "string option"
  country :: "string option"
  status :: lead_status
  advertiserStatus :: "string option"
  ftdAt :: "int option"
  advertiserResponse :: "jsval option"
  payout :: "int option"
  updatedAt :: int
  rawPayload :: "(string \<times> jsval) list"

record mapping =
  mapAffiliateId :: string
  mapOfferId :: string
  mapAdvertiserId :: string
  forwardUrl :: string
  enabled :: bool

text \<open>A transform descriptor \<open>{ type, template? }\<close> of a field-mapping rule.\<close>

record transform =
  ttype :: string
  template :: "string option"

record fieldMapping =
  fmAdvertiserId :: string
  sourceField :: string
  targetField :: string
  allowlist :: bool
  transform :: "transform option"

section \<open>Field transformer\<close>

text \<open>\<open>applyTransform(value, transform)\<close>\<close>

definition applyTransform :: "jsval \<Rightarrow> transform option \<Rightarrow> jsval" where
  "applyTransform v tr =
     (case tr of
        None \<Rightarrow> v
      | Some t \<Rightarrow>
          (case v of
             JStr s \<Rightarrow>
               (if ttype t = ''uppercase'' then JStr (toUpperCase s)
                else if ttype t = ''lowercase'' then JStr (toLowerCase s)
                else if ttype t = ''trim'' then JStr (trim s)
                else if ttype t = ''concat'' then
                  (case template t of
                     None \<Rightarrow> v
                   | Some tpl \<Rightarrow>
                       jsOr (JStr (stringReplace tpl ''{{value}}'' s)) v)
                else v)
           | _ \<Rightarrow> v))"

text \<open>The object literal \<open>standardFields\<close> of \<open>buildAnonymizedPayload\<close>.\<close>

definition standardFields :: "lead \<Rightarrow> (string \<times> jsval) list" where
  "standardFields l =
     [(''email'', nullable (email l)),
      (''phone'', nullable (phone l)),
      (''first_name'', nullable (firstName l)),
      (''last_name'', nullable (lastName l)),
      (''country'', nullable (country l))]"

text \<open>
  \<open>rawPayload[mapping.sourceField] || standardFields[mapping.sourceField]\<close>
\<close>

definition resolveValue :: "lead \<Rightarrow> string \<Rightarrow> jsval" where
  "resolveValue l src = jsOr (jsGet (rawPayload l) src) (jsGet (standardFields l) src)"

text \<open>The body of the loop over the advertiser's field mappings.\<close>

definition mappingStep :: "lead \<Rightarrow> (string \<times> jsval) list \<Rightarrow> fieldMapping \<Rightarrow> (string \<times> jsval) list" where
  "mappingStep l payload m =
     (let v = resolveValue l (sourceField m)
      in if present v
         then AList.update (targetField m)
                (case transform m of None \<Rightarrow> v | Some t \<Rightarrow> applyTransform v (Some t))
                payload
         else payload)"

text \<open>The body of the default mapping over \<open>Object.entries(standardFields)\<close>.\<close>

definition defaultStep :: "(string \<times> jsval) list \<Rightarrow> string \<times> jsval \<Rightarrow> (string \<times> jsval) list" where
  "defaultStep payload kv =
     (if present (snd kv) then AList.update (fst kv) (snd kv) payload else payload)"

text \<open>
  \<open>db.fieldMapping.findMany({ where: { advertiserId, allowlist: true } })\<close> over the
  table of field mappings.
\<close>

definition findFieldMappings :: "fieldMapping list \<Rightarrow> advertiser \<Rightarrow> fieldMapping list" where
  "findFieldMappings table adv =
     filter (\<lambda>m. fmAdvertiserId m = advId adv \<and> allowlist m) table"

definition buildAnonymizedPayload :: "fieldMapping list \<Rightarrow> lead \<Rightarrow> advertiser \<Rightarrow> (string \<times> jsval) list" where
  "buildAnonymizedPayload table l adv =
     (let fieldMappings = findFieldMappings table adv
      in if length fieldMappings > 0
         then foldl (mappingStep l) [] fieldMappings
         else foldl defaultStep [] (standardFields l))"

text \<open>
  The request body of a forward: \<open>{ az_tx_id: lead.azTxId, ...anonymizedPayload }\<close>.
\<close>

definition requestPayload :: "fieldMapping list \<Rightarrow> lead \<Rightarrow> advertiser \<Rightarrow> (string \<times> jsval) list" where
  "requestPayload table l adv =
     spread [(''az_tx_id'', JStr (azTxId l))] (buildAnonymizedPayload table l adv)"




section \<open>Environment\<close>

text \<open>
  What the pipeline calls but does not define: the configured HMAC algorithm
  (\<open>config.hmacAlgo\<close>), Node's \<open>crypto.createHmac(algo, key).update(msg).digest()\<close>
  (\<open>None\<close> when it throws on an unknown algorithm), \<open>JSON.stringify\<close>, the clock
  in Unix seconds (\<open>Math.floor(Date.now() / 1000)\<close>), and the advertiser's endpoint
  as \<open>axios.post\<close> sees it.
\<close>

datatype http_outcome =
    HttpResponse nat "(string \<times> string) list" jsval
  | NetworkError string

record env =
  hmacAlgo :: string
  createHmac :: "string \<Rightarrow> string \<Rightarrow> string \<Rightarrow> 8 word list option"
  jsonStringify :: "jsval \<Rightarrow> string"
  unixTime :: int
  axiosPost :: "string \<Rightarrow> (string \<times> string) list \<Rightarrow> (string \<times> jsval) list \<Rightarrow> http_outcome"

section \<open>Signer and verifier\<close>

text \<open>\<open>createHmacSignature(secret, timestamp, body)\<close>; \<open>None\<close> when it throws.\<close>

definition createHmacSignature :: "env \<Rightarrow> string \<Rightarrow> string \<Rightarrow> string \<Rightarrow> string option" where
  "createHmacSignature e secret timestamp body =
     map_option digestHex (createHmac e (hmacAlgo e) secret (timestamp @ '':'' @ body))"

text \<open>
  \<open>verifyHmacSignature(secret, timestamp, body, signature)\<close>. Every exception inside
  is caught and turned into \<open>false\<close>: an unknown algorithm, a signature without
  \<open>=\<close> (the hash is then \<open>undefined\<close>), buffers of different lengths. A timestamp
  that does not parse gives \<open>NaN\<close>, and \<open>NaN > 300\<close> is false.
\<close>

definition verifyHmacSignature :: "env \<Rightarrow> string \<Rightarrow> string \<Rightarrow> string \<Rightarrow> string \<Rightarrow> bool" where
  "verifyHmacSignature e secret timestamp body signature =
     (if (case parseInt10 timestamp of
            None \<Rightarrow> False
          | Some requestTime \<Rightarrow> abs (unixTime e - requestTime) > 300)
      then False
      else
        (case splitOn CHR ''='' signature of
           [] \<Rightarrow> False
         | algorithm # rest \<Rightarrow>
             if algorithm \<noteq> hmacAlgo e then False
             else
               (case createHmac e (hmacAlgo e) secret (timestamp @ '':'' @ body) of
                  None \<Rightarrow> False
                | Some digest \<Rightarrow>
                    (case rest of
                       [] \<Rightarrow> False
                     | hash # others \<Rightarrow>
                         (case timingSafeEqual (bufferFromHex hash)
                                 (bufferFromHex (digestHex digest)) of
                            None \<Rightarrow> False
                          | Some r \<Rightarrow> r)))))"

section \<open>Replay cache\<close>

text \<open>
  The Redis keys the helper uses: a value and, for \<open>SETEX\<close>, the second at which the
  key expires. \<open>EXISTS\<close> sees a key until then.
\<close>

type_synonym redis = "(string \<times> string \<times> int option) list"

definition redisExists :: "int \<Rightarrow> redis \<Rightarrow> string \<Rightarrow> bool" where
  "redisExists now r k =
     (case map_of r k of
        None \<Rightarrow> False
      | Some entry \<Rightarrow> (case snd entry of None \<Rightarrow> True | Some expiry \<Rightarrow> now < expiry))"

text \<open>\<open>RedisHelper.set(key, value, ttlSeconds?)\<close>\<close>

definition redisSet :: "int \<Rightarrow> string \<Rightarrow> string \<Rightarrow> nat option \<Rightarrow> redis \<Rightarrow> redis" where
  "redisSet now k v ttlSeconds r =
     (case ttlSeconds of
        None \<Rightarrow> AList.update k (v, None) r
      | Some ttl \<Rightarrow>
          if ttl \<noteq> 0 then AList.update k (v, Some (now + int ttl)) r
          else AList.update k (v, None) r)"

text \<open>\<open>RedisHelper.checkReplayAttack(timestamp, signature)\<close>\<close>

definition replayKey :: "string \<Rightarrow> string \<Rightarrow> string" where
  "replayKey timestamp signature = ''replay:'' @ timestamp @ '':'' @ signature"

definition checkReplayAttack :: "int \<Rightarrow> string \<Rightarrow> string \<Rightarrow> redis \<Rightarrow> bool \<times> redis" where
  "checkReplayAttack now timestamp signature r =
     (let k = replayKey timestamp signature
      in if \<not> redisExists now r k then (False, redisSet now k ''1'' (Some 300) r)
         else (True, r))"

section \<open>The store\<close>

datatype log_response =
    ResponseData nat "(string \<times> string) list" jsval
  | ResponseError string

record forwardLog =
  logLeadId :: string
  attemptNo :: nat
  logUrl :: string
  logHeaders :: "(string \<times> string) list"
  logBody :: "(string \<times> jsval) list"
  logResponse :: log_response
  statusCode :: "nat option"

text \<open>The body of a callback, \<open>interface CallbackRequest\<close>.\<close>

record callbackRequest =
  az_tx_id :: "string option"
  cbStatus :: "string option"
  external_id :: "string option"
  cbPayout :: "int option"

record callbackLog =
  cbAdvertiserId :: string
  cbAzTxId :: string
  cbPayload :: callbackRequest
  cbSignature :: "string option"
  cbStatusCode :: nat

record commission =
  comLeadId :: "string option"
  comAdvertiserId :: string
  comAffiliateId :: string
  amount :: int
  description :: string

record state =
  leads :: "lead list"
  advertisers :: "advertiser list"
  mappings :: "mapping list"
  fieldMappings :: "fieldMapping list"
  forwardLogs :: "forwardLog list"
  callbackLogs :: "callbackLog list"
  commissions :: "commission list"
  forwardAttemptsTotal :: "(string \<times> string) list"
  callbacksTotal :: "(string \<times> string) list"
  replayCache :: redis

text \<open>\<open>db.lead.update({ where: { id }, data })\<close>\<close>

definition updateLead :: "string \<Rightarrow> (lead \<Rightarrow> lead) \<Rightarrow> state \<Rightarrow> state" where
  "updateLead i f s = s\<lparr>leads := map (\<lambda>l. if leadId l = i then f l else l) (leads s)\<rparr>"

definition recordForwardAttempt :: "string \<Rightarrow> string \<Rightarrow> state \<Rightarrow> state" where
  "recordForwardAttempt a st s = s\<lparr>forwardAttemptsTotal := forwardAttemptsTotal s @ [(a, st)]\<rparr>"

definition recordCallback :: "string \<Rightarrow> string \<Rightarrow> state \<Rightarrow> state" where
  "recordCallback a st s = s\<lparr>callbacksTotal := callbacksTotal s @ [(a, st)]\<rparr>"

section \<open>Forward worker\<close>

text \<open>
  A BullMQ job: \<open>job.data.leadId\<close>, \<open>job.attemptsMade\<close>, \<open>job.opts.attempts\<close>.
  The processor either returns, which completes the job, or throws, which fails the
  attempt and lets the queue schedule the next one while attempts remain.
\<close>

record job =
  jobLeadId :: string
  attemptsMade :: nat
  optsAttempts :: "nat option"

text \<open>A thrown error: its message and \<open>error.response?.status\<close>.\<close>

datatype js_error = JsError string "nat option"

fun errMessage :: "js_error \<Rightarrow> string" where
  "errMessage (JsError msg st) = msg"

fun errStatus :: "js_error \<Rightarrow> nat option" where
  "errStatus (JsError msg st) = st"

datatype outcome = Returned | Threw js_error

text \<open>
  \<open>db.mapping.findFirst({ where: { affiliateId, offerId, enabled: true } })\<close>
\<close>

definition findMapping :: "state \<Rightarrow> lead \<Rightarrow> mapping option" where
  "findMapping s l =
     find (\<lambda>m. mapAffiliateId m = affiliateId l \<and> Some (mapOfferId m) = offerId l \<and> enabled m)
       (mappings s)"

text \<open>The headers of the request, signed when the advertiser has a secret.\<close>

definition baseHeaders :: "(string \<times> string) list" where
  "baseHeaders = [(''Content-Type'', ''application/json''), (''User-Agent'', ''AZLeads/1.0'')]"

definition forwardHeaders :: "env \<Rightarrow> advertiser \<Rightarrow> (string \<times> jsval) list \<Rightarrow> (string \<times> string) list option" where
  "forwardHeaders e adv body =
     (if endpointSecret adv \<noteq> [] then
        (let timestamp = decimal (unixTime e);
             bodyString = jsonStringify e (JObj body)
         in (case createHmacSignature e (endpointSecret adv) timestamp bodyString of
               None \<Rightarrow> None
             | Some signature \<Rightarrow>
                 Some (baseHeaders @
                   [(''X-Signature'', hmacAlgo e @ ''='' @ signature),
                    (''X-Signature-Timestamp'', timestamp)])))
      else Some baseHeaders)"

text \<open>\<open>job.opts.attempts || 3\<close>\<close>

definition maxAttempts :: "job \<Rightarrow> nat" where
  "maxAttempts j = (case optsAttempts j of None \<Rightarrow> 3 | Some a \<Rightarrow> if a \<noteq> 0 then a else 3)"

definition markFailed :: "env \<Rightarrow> advertiser \<Rightarrow> lead \<Rightarrow> lead" where
  "markFailed e adv l =
     l\<lparr>status := ForwardFailed, advertiserId := Some (advId adv), updatedAt := unixTime e\<rparr>"

text \<open>
  The \<open>catch (error)\<close> block around the delivery: it logs a forward attempt, sets
  the lead to \<open>forward_failed\<close> on a response status below 500 or on the last
  attempt, and throws the error again.
\<close>

definition catchBlock ::
  "env \<Rightarrow> job \<Rightarrow> advertiser \<Rightarrow> string \<Rightarrow> (string \<times> string) list \<Rightarrow> (string \<times> jsval) list
     \<Rightarrow> js_error \<Rightarrow> state \<Rightarrow> outcome \<times> state" where
  "catchBlock e j adv url headers body err s =
     (let s1 = s\<lparr>forwardLogs := forwardLogs s @
                 [\<lparr>logLeadId = jobLeadId j, attemptNo = attemptsMade j + 1, logUrl = url,
                   logHeaders = headers, logBody = body,
                   logResponse = ResponseError (errMessage err),
                   statusCode = (case errStatus err of
                                   None \<Rightarrow> None
                                 | Some st \<Rightarrow> if st \<noteq> 0 then Some st else None)\<rparr>]\<rparr>;
          s2 = (if (case errStatus err of None \<Rightarrow> False | Some st \<Rightarrow> st \<noteq> 0 \<and> st < 500)
                then recordForwardAttempt (advId adv) ''client_error''
                       (updateLead (jobLeadId j) (markFailed e adv) s1)
                else
                  (let s' = recordForwardAttempt (advId adv) ''server_error'' s1
                   in if int (attemptsMade j) \<ge> int (maxAttempts j) - 1
                      then updateLead (jobLeadId j) (markFailed e adv) s'
                      else s'))
      in (Threw err, s2))"

text \<open>
  The inner \<open>try\<close>: the POST (axios resolves for a status below 500 and rejects
  otherwise, or without a response), the forward log, the update of the lead. The
  \<open>throw\<close> of the branch for a non-2xx response stands inside the \<open>try\<close>, so the
  \<open>catch\<close> block runs on it.
\<close>

definition deliver ::
  "env \<Rightarrow> job \<Rightarrow> advertiser \<Rightarrow> string \<Rightarrow> (string \<times> string) list \<Rightarrow> (string \<times> jsval) list
     \<Rightarrow> state \<Rightarrow> outcome \<times> state" where
  "deliver e j adv url headers body s =
     (case axiosPost e url headers body of
        NetworkError msg \<Rightarrow> catchBlock e j adv url headers body (JsError msg None) s
      | HttpResponse st hs dat \<Rightarrow>
          if \<not> st < 500 then
            catchBlock e j adv url headers body
              (JsError (''Request failed with status code '' @ decimal (int st)) (Some st)) s
          else
            (let s1 = s\<lparr>forwardLogs := forwardLogs s @
                        [\<lparr>logLeadId = jobLeadId j, attemptNo = attemptsMade j + 1, logUrl = url,
                          logHeaders = headers, logBody = body,
                          logResponse = ResponseData st hs dat,
                          statusCode = Some st\<rparr>]\<rparr>
             in if 200 \<le> st \<and> st < 300 then
                  (Returned,
                   recordForwardAttempt (advId adv) ''success''
                     (updateLead (jobLeadId j)
                        (\<lambda>l. l\<lparr>status := Forwarded, advertiserId := Some (advId adv),
                               advertiserResponse := Some dat, updatedAt := unixTime e\<rparr>) s1))
                else
                  catchBlock e j adv url headers body
                    (JsError (''Advertiser returned '' @ decimal (int st) @ '': '' @ jsonStringify e dat) None)
                    (recordForwardAttempt (advId adv) ''client_error''
                       (updateLead (jobLeadId j)
                          (\<lambda>l. l\<lparr>status := ForwardFailed, advertiserId := Some (advId adv),
                                 advertiserResponse := Some dat, updatedAt := unixTime e\<rparr>) s1))))"

text \<open>
  \<open>processForwardLead(job)\<close>. The advertiser of a mapping is a required relation;
  the branch for a mapping without one is excluded by the foreign key and stands for
  the \<open>TypeError\<close> JavaScript would throw.
\<close>

definition processForwardLead :: "env \<Rightarrow> job \<Rightarrow> state \<Rightarrow> outcome \<times> state" where
  "processForwardLead e j s =
     (case find (\<lambda>l. leadId l = jobLeadId j) (leads s) of
        None \<Rightarrow> (Threw (JsError (''Lead not found: '' @ jobLeadId j) None), s)
      | Some l \<Rightarrow>
          if status l \<noteq> Pending then (Returned, s)
          else
            (case findMapping s l of
               None \<Rightarrow>
                 (Returned,
                  recordForwardAttempt ''no_mapping'' ''no_mapping''
                    (updateLead (jobLeadId j) (\<lambda>x. x\<lparr>status := NoMapping\<rparr>) s))
             | Some m \<Rightarrow>
                 (case find (\<lambda>a. advId a = mapAdvertiserId m) (advertisers s) of
                    None \<Rightarrow> (Threw (JsError ''TypeError'' None), s)
                  | Some adv \<Rightarrow>
                      (let body = requestPayload (fieldMappings s) l adv;
                           url = (if forwardUrl m \<noteq> [] then forwardUrl m else endpointUrl adv)
                       in (case forwardHeaders e adv body of
                             None \<Rightarrow> (Threw (JsError ''Invalid digest'' None), s)
                           | Some headers \<Rightarrow> deliver e j adv url headers body s)))))"

section \<open>Callback handler\<close>

datatype response = JsonOk | ApiError nat string string

text \<open>The payload as \<open>JSON.stringify\<close> receives it: the properties that are set.\<close>

definition callbackJson :: "callbackRequest \<Rightarrow> jsval" where
  "callbackJson p =
     JObj ((case az_tx_id p of None \<Rightarrow> [] | Some v \<Rightarrow> [(''az_tx_id'', JStr v)]) @
           (case cbStatus p of None \<Rightarrow> [] | Some v \<Rightarrow> [(''status'', JStr v)]) @
           (case external_id p of None \<Rightarrow> [] | Some v \<Rightarrow> [(''external_id'', JStr v)]) @
           (case cbPayout p of None \<Rightarrow> [] | Some v \<Rightarrow> [(''payout'', JNum v)]))"

text \<open>
  \<open>lead.advertiser\<close> of \<open>findUnique({ where: { azTxId }, include: { advertiser } })\<close>
\<close>

definition findLeadByTx :: "state \<Rightarrow> string \<Rightarrow> lead option" where
  "findLeadByTx s tx = find (\<lambda>l. azTxId l = tx) (leads s)"

definition leadAdvertiser :: "state \<Rightarrow> lead \<Rightarrow> advertiser option" where
  "leadAdvertiser s l =
     (case advertiserId l of
        None \<Rightarrow> None
      | Some a \<Rightarrow> find (\<lambda>adv. advId adv = a) (advertisers s))"

text \<open>
  The signature and replay gate: it runs only when the advertiser has a secret and
  both headers came with the request. \<open>Some\<close> is the error thrown.
\<close>

definition authenticate ::
  "env \<Rightarrow> advertiser \<Rightarrow> callbackRequest \<Rightarrow> string option \<Rightarrow> string option \<Rightarrow> state
     \<Rightarrow> response option \<times> state" where
  "authenticate e adv payload signature timestamp s =
     (case signature of
        None \<Rightarrow> (None, s)
      | Some sg \<Rightarrow>
          (case timestamp of
             None \<Rightarrow> (None, s)
           | Some ts \<Rightarrow>
               if endpointSecret adv \<noteq> [] \<and> sg \<noteq> [] \<and> ts \<noteq> [] then
                 (if \<not> verifyHmacSignature e (endpointSecret adv) ts
                          (jsonStringify e (callbackJson payload)) sg
                  then (Some (ApiError 401 ''INVALID_SIGNATURE'' ''Invalid HMAC signature''), s)
                  else
                    (let chk = checkReplayAttack (unixTime e) ts sg (replayCache s)
                     in (if fst chk
                         then Some (ApiError 400 ''REPLAY_ATTACK'' ''Request has been processed before'')
                         else None,
                         s\<lparr>replayCache := snd chk\<rparr>)))
               else (None, s)))"

text \<open>The update of the lead, from the payload and the lead as it was read.\<close>

definition callbackUpdate :: "env \<Rightarrow> lead \<Rightarrow> string \<Rightarrow> callbackRequest \<Rightarrow> lead \<Rightarrow> lead" where
  "callbackUpdate e l st payload x =
     (let x1 = x\<lparr>advertiserStatus := Some st, updatedAt := unixTime e\<rparr>;
          x2 = (case cbPayout payload of None \<Rightarrow> x1 | Some p \<Rightarrow> x1\<lparr>payout := Some p\<rparr>)
      in if st = ''approved'' \<and> ftdAt l = None
         then x2\<lparr>ftdAt := Some (unixTime e), status := Approved\<rparr>
         else if st = ''rejected'' then x2\<lparr>status := Rejected\<rparr>
         else x2)"

text \<open>The commission of an approved callback with a payout, unless one exists.\<close>

definition findCommission :: "state \<Rightarrow> lead \<Rightarrow> advertiser \<Rightarrow> commission option" where
  "findCommission s l adv =
     find (\<lambda>c. comLeadId c = Some (leadId l) \<and> comAdvertiserId c = advId adv) (commissions s)"

definition createCommission :: "lead \<Rightarrow> advertiser \<Rightarrow> string \<Rightarrow> string \<Rightarrow> callbackRequest \<Rightarrow> state \<Rightarrow> state" where
  "createCommission l adv tx st payload s =
     (case cbPayout payload of
        None \<Rightarrow> s
      | Some p \<Rightarrow>
          if st = ''approved'' \<and> p \<noteq> 0 \<and> p > 0 then
            (case findCommission s l adv of
               None \<Rightarrow>
                 s\<lparr>commissions := commissions s @
                     [\<lparr>comLeadId = Some (leadId l), comAdvertiserId = advId adv,
                       comAffiliateId = affiliateId l, amount = p,
                       description = ''Conversion payout for '' @ tx\<rparr>]\<rparr>
             | Some c \<Rightarrow> s)
          else s)"

text \<open>What the handler does once the gate has let the callback through.\<close>

definition applyCallback ::
  "env \<Rightarrow> lead \<Rightarrow> advertiser \<Rightarrow> string \<Rightarrow> string \<Rightarrow> callbackRequest \<Rightarrow> string option \<Rightarrow> state \<Rightarrow> state" where
  "applyCallback e l adv tx st payload signature s =
     (let s1 = s\<lparr>callbackLogs := callbackLogs s @
                 [\<lparr>cbAdvertiserId = advId adv, cbAzTxId = tx, cbPayload = payload,
                   cbSignature = signature, cbStatusCode = 200\<rparr>]\<rparr>;
          s2 = updateLead (leadId l) (callbackUpdate e l st payload) s1;
          s3 = createCommission l adv tx st payload s2
      in recordCallback (advId adv) st s3)"

text \<open>The handler of \<open>POST /advertiser_callback\<close>.\<close>

definition handleCallback ::
  "env \<Rightarrow> callbackRequest \<Rightarrow> string option \<Rightarrow> string option \<Rightarrow> state \<Rightarrow> response \<times> state" where
  "handleCallback e payload signature timestamp s =
     (case az_tx_id payload of
        None \<Rightarrow> (ApiError 400 ''MISSING_AZ_TX_ID'' ''az_tx_id is required'', s)
      | Some tx \<Rightarrow>
          if tx = [] then (ApiError 400 ''MISSING_AZ_TX_ID'' ''az_tx_id is required'', s)
          else
            (case cbStatus payload of
               None \<Rightarrow> (ApiError 400 ''MISSING_STATUS'' ''status is required'', s)
             | Some st \<Rightarrow>
                 if st = [] then (ApiError 400 ''MISSING_STATUS'' ''status is required'', s)
                 else
                   (case findLeadByTx s tx of
                      None \<Rightarrow> (ApiError 404 ''LEAD_NOT_FOUND'' (''Lead not found: '' @ tx), s)
                    | Some l \<Rightarrow>
                        (case leadAdvertiser s l of
                           None \<Rightarrow>
                             (ApiError 400 ''NO_ADVERTISER'' ''Lead has no associated advertiser'', s)
                         | Some adv \<Rightarrow>
                             (case authenticate e adv payload signature timestamp s of
                                (Some err, s1) \<Rightarrow> (err, s1)
                              | (None, s1) \<Rightarrow>
                                  (JsonOk, applyCallback e l adv tx st payload signature s1))))))"

section \<open>Worked data\<close>

text \<open>
  One advertiser with the secret \<open>s1\<close>, one lead of affiliate \<open>aff-1\<close> for offer
  \<open>offer-1\<close>, the mapping that routes it, and one callback. The environment of the
  examples tabulates the external functions at the points the examples use: the
  HMAC-SHA256 digests are the real ones for those keys and messages, and the JSON
  texts are what \<open>JSON.stringify\<close> gives for those values.
\<close>

definition demoAdvertiser :: advertiser where
  "demoAdvertiser =
     \<lparr>advId = ''adv-1'', endpointUrl = ''https://adv.example/leads'', endpointSecret = ''s1''\<rparr>"

definition demoLead :: lead where
  "demoLead =
     \<lparr>leadId = ''lead-1'', azTxId = ''tx-1'', affiliateId = ''aff-1'',
      offerId = Some ''offer-1'', advertiserId = None,
      email = Some ''lead@b.co'', phone = Some ''555-0100'', firstName = Some ''Ada'',
      lastName = None, country = Some ''BD'',
      status = Pending, advertiserStatus = None, ftdAt = None, advertiserResponse = None,
      payout = None, updatedAt = 0,
      rawPayload = [(''email'', JStr ''raw@b.co''), (''sub_id'', JStr ''s-77'')]\<rparr>"

text \<open>A lead that differs from \<open>demoLead\<close> in fields no rule below names.\<close>

definition otherLead :: lead where
  "otherLead =
     demoLead\<lparr>phone := Some ''555-0199'', lastName := Some ''Lovelace'', country := None,
       rawPayload := [(''sub_id'', JStr ''s-99''), (''email'', JStr ''raw@b.co''),
                      (''ip'', JStr ''10.0.0.7'')]\<rparr>"


definition demoMapping :: mapping where
  "demoMapping =
     \<lparr>mapAffiliateId = ''aff-1'', mapOfferId = ''offer-1'', mapAdvertiserId = ''adv-1'',
      forwardUrl = [], enabled = True\<rparr>"

definition emailRule :: fieldMapping where
  "emailRule =
     \<lparr>fmAdvertiserId = ''adv-1'', sourceField = ''email'', targetField = ''email_addr'',
      allowlist = True, transform = None\<rparr>"

definition nameRule :: fieldMapping where
  "nameRule =
     \<lparr>fmAdvertiserId = ''adv-1'', sourceField = ''first_name'', targetField = ''fname'',
      allowlist = True, transform = Some \<lparr>ttype = ''uppercase'', template = None\<rparr>\<rparr>"


definition demoBody :: string where
  "demoBody = ''{\"az_tx_id\":\"tx-1\",\"status\":\"approved\",\"payout\":25}''"

definition demoBody26 :: string where
  "demoBody26 = ''{\"az_tx_id\":\"tx-1\",\"status\":\"approved\",\"payout\":26}''"

definition demoForwardBody :: string where
  "demoForwardBody = ''{\"az_tx_id\":\"tx-1\",\"email_addr\":\"raw@b.co\"}''"

definition demoPayload :: callbackRequest where
  "demoPayload =
     \<lparr>az_tx_id = Some ''tx-1'', cbStatus = Some ''approved'', external_id = None,
      cbPayout = Some 25\<rparr>"

definition demoDigest :: "8 word list" where
  "demoDigest =
     [0xF2, 0x4E, 0x1A, 0x76, 0x88, 0xC5, 0xC5, 0x1E, 0x58, 0x6F, 0xA6, 0xC9, 0x5F, 0xA8,
      0xCD, 0x2A, 0xA9, 0xA4, 0x74, 0x26, 0xF7, 0xDA, 0x21, 0x00, 0x39, 0x73, 0x17, 0xB8,
      0x2F, 0x59, 0xB8, 0xC4]"

definition demoDigest26 :: "8 word list" where
  "demoDigest26 =
     [0x76, 0xEE, 0x23, 0x2C, 0x46, 0x8C, 0xDA, 0x2D, 0x87, 0x50, 0x88, 0x0D, 0x28, 0x65,
      0x89, 0x94, 0x52, 0x58, 0xCC, 0xA3, 0x04, 0xE6, 0x7C, 0xD9, 0x7B, 0x57, 0xBA, 0x56,
      0xA9, 0x47, 0x37, 0xB3]"

definition demoDigestLater :: "8 word list" where
  "demoDigestLater =
     [0xA9, 0xB4, 0xE2, 0x47, 0x7D, 0x64, 0x26, 0x5E, 0x62, 0x51, 0x29, 0xE0, 0x8D, 0x00,
      0xC4, 0x4F, 0xBD, 0xA3, 0x27, 0x30, 0x89, 0x84, 0xC3, 0x8E, 0x27, 0x5E, 0xEF, 0x51,
      0x2E, 0x1E, 0xFB, 0xBD]"

definition demoForwardDigest :: "8 word list" where
  "demoForwardDigest =
     [0x06, 0x43, 0x47, 0xC3, 0x81, 0xE2, 0xC5, 0x2E, 0xA1, 0xFC, 0x3C, 0x77, 0x5B, 0x4B,
      0x9E, 0x9E, 0x05, 0xEC, 0xFE, 0x78, 0x6D, 0x94, 0xC5, 0x3C, 0xBF, 0xC5, 0xA3, 0x50,
      0x73, 0xC4, 0x4C, 0x79]"

text \<open>HMAC-SHA256 with the key \<open>s1\<close>, at the four messages of the examples.\<close>

definition demoHmac :: "string \<Rightarrow> string \<Rightarrow> string \<Rightarrow> 8 word list option" where
  "demoHmac algo k msg =
     (if algo = ''sha256'' \<and> k = ''s1'' then
        (if msg = ''1700000000:'' @ demoBody then Some demoDigest
         else if msg = ''1700000000:'' @ demoBody26 then Some demoDigest26
         else if msg = ''1700000001:'' @ demoBody then Some demoDigestLater
         else if msg = ''1700000000:'' @ demoForwardBody then Some demoForwardDigest
         else None)
      else None)"

definition demoStringify :: "jsval \<Rightarrow> string" where
  "demoStringify v =
     (if v = callbackJson demoPayload then demoBody
      else if v = callbackJson (demoPayload\<lparr>cbPayout := Some 26\<rparr>) then demoBody26
      else if v = JObj [(''az_tx_id'', JStr ''tx-1''), (''email_addr'', JStr ''raw@b.co'')]
        then demoForwardBody
      else if v = JObj [(''error'', JStr ''bad lead'')] then ''{\"error\":\"bad lead\"}''
      else ''null'')"

text \<open>An advertiser endpoint that answers every request with 404.\<close>

definition demoEnv :: env where
  "demoEnv =
     \<lparr>hmacAlgo = ''sha256'', createHmac = demoHmac, jsonStringify = demoStringify,
      unixTime = 1700000000,
      axiosPost = (\<lambda>url headers body. HttpResponse 404 [] (JObj [(''error'', JStr ''bad lead'')]))\<rparr>"

definition demoSignature :: string where
  "demoSignature = ''sha256=f24e1a7688c5c51e586fa6c95fa8cd2aa9a47426f7da2100397317b82f59b8c4''"

definition demoState :: state where
  "demoState =
     \<lparr>leads = [demoLead], advertisers = [demoAdvertiser], mappings = [demoMapping],
      fieldMappings = [emailRule], forwardLogs = [], callbackLogs = [], commissions = [],
      forwardAttemptsTotal = [], callbacksTotal = [], replayCache = []\<rparr>"

text \<open>The store once the lead has been forwarded to the advertiser.\<close>

definition forwardedState :: state where
  "forwardedState =
     demoState\<lparr>leads := [demoLead\<lparr>status := Forwarded, advertiserId := Some ''adv-1''\<rparr>]\<rparr>"

definition demoJob :: job where
  "demoJob = \<lparr>jobLeadId = ''lead-1'', attemptsMade = 0, optsAttempts = Some 6\<rparr>"

section \<open>Notions the properties use\<close>

text \<open>The commissions of the ledger for one lead and advertiser.\<close>

definition commissionsFor :: "state \<Rightarrow> string \<Rightarrow> string \<Rightarrow> commission list" where
  "commissionsFor s lid aid =
     filter (\<lambda>c. comLeadId c = Some lid \<and> comAdvertiserId c = aid) (commissions s)"

text \<open>The same store with no advertiser holding a secret: unauthenticated mode.\<close>

definition clearSecrets :: "state \<Rightarrow> state" where
  "clearSecrets s = s\<lparr>advertisers := map (\<lambda>a. a\<lparr>endpointSecret := []\<rparr>) (advertisers s)\<rparr>"

section \<open>Properties of the field transformer\<close>

subsection \<open>The keys of a payload\<close>

lemma map_of_spread:
  "map_of (spread base extra) = map_of base ++ map_of (rev extra)"
  unfolding spread_def
proof (induction extra arbitrary: base)
  case Nil
  show ?case by simp
next
  case (Cons kv extra)
  have "map_of (foldl (\<lambda>acc kv. AList.update (fst kv) (snd kv) acc) base (kv # extra))
        = map_of (AList.update (fst kv) (snd kv) base) ++ map_of (rev extra)"
    using Cons.IH by simp
  also have "\<dots> = map_of base ++ map_of (rev (kv # extra))"
    by (cases kv) (simp add: update_conv' map_add_upd_left fun_eq_iff map_add_def split: option.splits)
  finally show ?case .
qed

lemma keys_spread:
  "fst ` set (spread base extra) = fst ` set base \<union> fst ` set extra"
proof -
  have "dom (map_of (spread base extra)) = dom (map_of base) \<union> dom (map_of (rev extra))"
    by (simp add: map_of_spread Un_commute)
  then show ?thesis by (simp add: dom_map_of_conv_image_fst)
qed

lemma keys_mappingStep:
  "fst ` set (mappingStep l acc m) =
     fst ` set acc \<union> (if present (resolveValue l (sourceField m)) then {targetField m} else {})"
  by (simp add: mappingStep_def Let_def dom_update)

lemma keys_mappingStep_fold:
  "fst ` set (foldl (mappingStep l) acc ms) =
     fst ` set acc \<union> targetField ` {m \<in> set ms. present (resolveValue l (sourceField m))}"
  by (induction ms arbitrary: acc) (auto simp: keys_mappingStep)

lemma keys_defaultStep:
  "fst ` set (defaultStep acc kv) =
     fst ` set acc \<union> (if present (snd kv) then {fst kv} else {})"
  by (simp add: defaultStep_def dom_update)

lemma keys_defaultStep_fold:
  "fst ` set (foldl defaultStep acc kvs) =
     fst ` set acc \<union> fst ` {kv \<in> set kvs. present (snd kv)}"
  by (induction kvs arbitrary: acc) (auto simp: keys_defaultStep)

lemma keys_standardFields:
  "fst ` set (standardFields l) = {''email'', ''phone'', ''first_name'', ''last_name'', ''country''}"
  by (auto simp: standardFields_def)

lemma keys_buildAnonymizedPayload:
  "fst ` set (buildAnonymizedPayload t l a) \<subseteq>
     (if findFieldMappings t a = []
      then {''email'', ''phone'', ''first_name'', ''last_name'', ''country''}
      else targetField ` {m \<in> set (findFieldMappings t a). present (resolveValue l (sourceField m))})"
proof (cases "findFieldMappings t a = []")
  case True
  then show ?thesis
    using keys_standardFields [of l]
    by (auto simp: buildAnonymizedPayload_def keys_defaultStep_fold)
next
  case False
  then show ?thesis
    by (simp add: buildAnonymizedPayload_def keys_mappingStep_fold)
qed




subsection \<open>The transaction id in the request\<close>




subsection \<open>Allow-listing\<close>

lemma foldl_mappingStep_cong:
  assumes "\<forall>m \<in> set ms. resolveValue l (sourceField m) = resolveValue l' (sourceField m)"
  shows "foldl (mappingStep l) acc ms = foldl (mappingStep l') acc ms"
  using assms by (induction ms arbitrary: acc) (simp_all add: mappingStep_def)

text \<open>
  C7: when the advertiser has at least one allow-listed rule, the keys of the request
  are rule targets or \<open>az_tx_id\<close>; and two leads that agree on every field a
  rule names as its source (in the raw payload and among the standard fields) give the
  same transformer output, and the same request when their transaction ids agree.
\<close>

theorem allowlist_only:
  assumes "findFieldMappings t a \<noteq> []"
  shows "fst ` set (requestPayload t l a)
           \<subseteq> insert ''az_tx_id'' (targetField ` set (findFieldMappings t a))
     \<and> ((\<forall>m \<in> set (findFieldMappings t a).
            jsGet (rawPayload l) (sourceField m) = jsGet (rawPayload l') (sourceField m)
            \<and> jsGet (standardFields l) (sourceField m) = jsGet (standardFields l') (sourceField m))
          \<longrightarrow> buildAnonymizedPayload t l a = buildAnonymizedPayload t l' a
              \<and> (azTxId l = azTxId l' \<longrightarrow> requestPayload t l a = requestPayload t l' a))"
proof (intro conjI impI)
  show "fst ` set (requestPayload t l a)
           \<subseteq> insert ''az_tx_id'' (targetField ` set (findFieldMappings t a))"
    using assms keys_buildAnonymizedPayload [of t l a]
    by (auto simp: requestPayload_def keys_spread)
next
  assume h: "\<forall>m \<in> set (findFieldMappings t a).
            jsGet (rawPayload l) (sourceField m) = jsGet (rawPayload l') (sourceField m)
            \<and> jsGet (standardFields l) (sourceField m) = jsGet (standardFields l') (sourceField m)"
  then have "\<forall>m \<in> set (findFieldMappings t a).
      resolveValue l (sourceField m) = resolveValue l' (sourceField m)"
    by (simp add: resolveValue_def)
  then show eq: "buildAnonymizedPayload t l a = buildAnonymizedPayload t l' a"
    using assms by (simp add: buildAnonymizedPayload_def foldl_mappingStep_cong)
  assume "azTxId l = azTxId l'"
  with eq show "requestPayload t l a = requestPayload t l' a"
    by (simp add: requestPayload_def)
qed

theorem allowlist_only_witness:
  "findFieldMappings [emailRule, nameRule] demoAdvertiser = [emailRule, nameRule]
   \<and> phone demoLead \<noteq> phone otherLead
   \<and> jsGet (rawPayload demoLead) ''sub_id'' \<noteq> jsGet (rawPayload otherLead) ''sub_id''
   \<and> fst ` set (requestPayload [emailRule, nameRule] demoLead demoAdvertiser)
        \<subseteq> {''az_tx_id'', ''email_addr'', ''fname''}
   \<and> requestPayload [emailRule, nameRule] demoLead demoAdvertiser
        = requestPayload [emailRule, nameRule] otherLead demoAdvertiser"
proof -
  have rules: "findFieldMappings [emailRule, nameRule] demoAdvertiser = [emailRule, nameRule]"
    by (simp add: findFieldMappings_def emailRule_def nameRule_def demoAdvertiser_def)
  have agree: "\<forall>m \<in> set (findFieldMappings [emailRule, nameRule] demoAdvertiser).
      jsGet (rawPayload demoLead) (sourceField m) = jsGet (rawPayload otherLead) (sourceField m)
      \<and> jsGet (standardFields demoLead) (sourceField m)
          = jsGet (standardFields otherLead) (sourceField m)"
    unfolding rules
    by (simp add: emailRule_def nameRule_def demoLead_def otherLead_def jsGet_def
          standardFields_def)
  have tx: "azTxId demoLead = azTxId otherLead"
    by (simp add: demoLead_def otherLead_def)
  have differ: "phone demoLead \<noteq> phone otherLead
      \<and> jsGet (rawPayload demoLead) ''sub_id'' \<noteq> jsGet (rawPayload otherLead) ''sub_id''"
    by (simp add: demoLead_def otherLead_def jsGet_def)
  have targets: "insert ''az_tx_id'' (targetField ` set [emailRule, nameRule])
      = {''az_tx_id'', ''email_addr'', ''fname''}"
    by (simp add: emailRule_def nameRule_def)
  have ne: "findFieldMappings [emailRule, nameRule] demoAdvertiser \<noteq> []"
    by (simp add: rules)
  note th = allowlist_only [OF ne, of demoLead otherLead]
  from th have sub: "fst ` set (requestPayload [emailRule, nameRule] demoLead demoAdvertiser)
      \<subseteq> insert ''az_tx_id'' (targetField ` set (findFieldMappings [emailRule, nameRule] demoAdvertiser))"
    by (rule conjunct1)
  from th agree tx
  have eq: "requestPayload [emailRule, nameRule] demoLead demoAdvertiser
      = requestPayload [emailRule, nameRule] otherLead demoAdvertiser"
    by blast
  from sub have "fst ` set (requestPayload [emailRule, nameRule] demoLead demoAdvertiser)
      \<subseteq> {''az_tx_id'', ''email_addr'', ''fname''}"
    unfolding rules targets .
  with rules differ eq show ?thesis by blast
qed

subsection \<open>The value a rule places\<close>








section \<open>Properties of the replay cache\<close>





section \<open>Properties of the signer and verifier\<close>



lemma unhex_hexDigit: "n < 16 \<Longrightarrow> unhex (hexDigit n) = Some n"
  by (auto simp: unhex_def hexDigit_def Let_def)


lemma byte_nibbles: "unat (b :: 8 word) div 16 < 16" "unat b mod 16 < 16"
proof -
  have "unat b < 256" using unsigned_less [of b] by simp
  then show "unat b div 16 < 16" by simp
  show "unat b mod 16 < 16" by simp
qed

lemma bufferFromHex_digestHex: "bufferFromHex (digestHex d) = d"
proof (induction d)
  case Nil
  show ?case by (simp add: digestHex_def)
next
  case (Cons b d)
  have "digestHex (b # d) = hexDigit (unat b div 16) # hexDigit (unat b mod 16) # digestHex d"
    by (simp add: digestHex_def hexByte_def)
  then show ?case
    using Cons.IH by (simp add: unhex_hexDigit byte_nibbles)
qed



lemma digestHex_inj: "digestHex d = digestHex d' \<Longrightarrow> d = d'"
  by (metis bufferFromHex_digestHex)






section \<open>Properties of the callback handler\<close>

lemma handleCallback_found:
  assumes "az_tx_id p = Some tx" and "tx \<noteq> []" and "cbStatus p = Some st" and "st \<noteq> []"
    and "findLeadByTx s tx = Some l" and "leadAdvertiser s l = Some adv"
  shows "handleCallback e p sg ts s =
     (case fst (authenticate e adv p sg ts s) of
        Some err \<Rightarrow> (err, snd (authenticate e adv p sg ts s))
      | None \<Rightarrow> (JsonOk, applyCallback e l adv tx st p sg (snd (authenticate e adv p sg ts s))))"
  using assms
  by (cases "authenticate e adv p sg ts s") (simp add: handleCallback_def split: option.splits)

lemma authenticate_state:
  "snd (authenticate e adv p sg ts s) = s\<lparr>replayCache := replayCache (snd (authenticate e adv p sg ts s))\<rparr>"
  by (simp add: authenticate_def Let_def split: option.splits)

lemma authenticate_error:
  "fst (authenticate e adv p sg ts s) = Some err \<Longrightarrow> err \<noteq> JsonOk"
  by (auto simp: authenticate_def Let_def split: option.splits if_splits)

lemma authenticate_skipped:
  assumes "endpointSecret adv = [] \<or> sg = None \<or> sg = Some [] \<or> ts = None \<or> ts = Some []"
  shows "authenticate e adv p sg ts s = (None, s)"
  using assms by (auto simp: authenticate_def split: option.splits)

lemma callbackLogs_applyCallback:
  "callbackLogs (applyCallback e l adv tx st p sg s) =
     callbackLogs s @ [\<lparr>cbAdvertiserId = advId adv, cbAzTxId = tx, cbPayload = p,
                        cbSignature = sg, cbStatusCode = 200\<rparr>]"
  by (simp add: applyCallback_def Let_def recordCallback_def createCommission_def updateLead_def
      split: option.splits)

lemma callbackLogs_authenticate:
  "callbackLogs (snd (authenticate e adv p sg ts s)) = callbackLogs s"
  by (subst authenticate_state) simp

text \<open>
  C1, as the code has it. The claim says a CallbackLog row is written even when the
  callback is rejected for its signature or as a replay. The handler throws the error
  before it reaches \<open>db.callbackLog.create\<close>: a callback with a wrong signature is
  answered with 401 and the store is left exactly as it was, without a row.
\<close>

theorem callback_log_on_rejection:
  "handleCallback demoEnv demoPayload (Some ''sha256=00'') (Some ''1700000000'') forwardedState
     = (ApiError 401 ''INVALID_SIGNATURE'' ''Invalid HMAC signature'', forwardedState)
   \<and> callbackLogs forwardedState = []"
  by code_simp

text \<open>
  C1, amended: the handler appends one CallbackLog row, with the payload, the signature
  header and the status code 200, exactly when it accepts the callback and answers
  \<open>{ ok: true }\<close>; when it rejects the callback (a missing field, an unknown lead,
  no advertiser, an invalid signature, a replay) the callback log is unchanged.
\<close>

theorem callback_log_iff_accepted:
  assumes "handleCallback e p sg ts s = (r, s')"
  shows "(r = JsonOk \<longrightarrow>
            (\<exists>(adv :: advertiser) tx. az_tx_id p = Some tx \<and>
               callbackLogs s' = callbackLogs s @
                 [\<lparr>cbAdvertiserId = advId adv, cbAzTxId = tx, cbPayload = p,
                   cbSignature = sg, cbStatusCode = 200\<rparr>]))
       \<and> (r \<noteq> JsonOk \<longrightarrow> callbackLogs s' = callbackLogs s)"
proof (cases "az_tx_id p")
  case None
  then show ?thesis using assms by (auto simp: handleCallback_def)
next
  case (Some tx)
  note tx = Some
  show ?thesis
  proof (cases "cbStatus p")
    case None
    then show ?thesis using assms tx by (auto simp: handleCallback_def split: if_splits)
  next
    case (Some st)
    note st = Some
    show ?thesis
    proof (cases "tx = [] \<or> st = [] \<or> findLeadByTx s tx = None")
      case True
      then show ?thesis
        using assms tx st by (auto simp: handleCallback_def split: if_splits)
    next
      case False
      then obtain l where l: "findLeadByTx s tx = Some l" and ne: "tx \<noteq> []" "st \<noteq> []"
        by auto
      show ?thesis
      proof (cases "leadAdvertiser s l")
        case None
        then show ?thesis
          using assms tx st l ne by (auto simp: handleCallback_def)
      next
        case (Some adv)
        note h = handleCallback_found [OF tx ne(1) st ne(2) l Some, of e sg ts]
        show ?thesis
        proof (cases "fst (authenticate e adv p sg ts s)")
          case None
          then have "r = JsonOk"
            and "s' = applyCallback e l adv tx st p sg (snd (authenticate e adv p sg ts s))"
            using h assms by simp_all
          then have "r = JsonOk \<and> az_tx_id p = Some tx \<and>
               callbackLogs s' = callbackLogs s @
                 [\<lparr>cbAdvertiserId = advId adv, cbAzTxId = tx, cbPayload = p,
                   cbSignature = sg, cbStatusCode = 200\<rparr>]"
            using tx by (simp add: callbackLogs_applyCallback callbackLogs_authenticate)
          then show ?thesis by blast
        next
          case (Some err)
          then have "r = err" and "s' = snd (authenticate e adv p sg ts s)"
            using h assms by simp_all
          then show ?thesis
            using authenticate_error [OF Some] by (simp add: callbackLogs_authenticate)
        qed
      qed
    qed
  qed
qed

theorem callback_log_iff_accepted_witness:
  "fst (handleCallback demoEnv demoPayload (Some demoSignature) (Some ''1700000000'') forwardedState)
     = JsonOk
   \<and> length (callbackLogs (snd (handleCallback demoEnv demoPayload (Some demoSignature)
        (Some ''1700000000'') forwardedState))) = 1
   \<and> fst (handleCallback demoEnv demoPayload (Some ''sha256=00'') (Some ''1700000000'') forwardedState)
     \<noteq> JsonOk
   \<and> callbackLogs (snd (handleCallback demoEnv demoPayload (Some ''sha256=00'')
        (Some ''1700000000'') forwardedState)) = []"
proof -
  have ok: "fst (handleCallback demoEnv demoPayload (Some demoSignature) (Some ''1700000000'')
      forwardedState) = JsonOk"
    by code_simp
  have bad: "fst (handleCallback demoEnv demoPayload (Some ''sha256=00'') (Some ''1700000000'')
      forwardedState) \<noteq> JsonOk"
    by code_simp
  have empty: "callbackLogs forwardedState = []" by code_simp
  from callback_log_iff_accepted [OF surjective_pairing, of demoEnv demoPayload "Some demoSignature"
      "Some ''1700000000''" forwardedState] ok
  obtain row where "callbackLogs (snd (handleCallback demoEnv demoPayload (Some demoSignature)
        (Some ''1700000000'') forwardedState)) = callbackLogs forwardedState @ [row]"
    by blast
  then have one: "length (callbackLogs (snd (handleCallback demoEnv demoPayload (Some demoSignature)
        (Some ''1700000000'') forwardedState))) = 1"
    by (simp add: empty)
  from callback_log_iff_accepted [OF surjective_pairing, of demoEnv demoPayload "Some ''sha256=00''"
      "Some ''1700000000''" forwardedState] bad empty
  have none: "callbackLogs (snd (handleCallback demoEnv demoPayload (Some ''sha256=00'')
        (Some ''1700000000'') forwardedState)) = []"
    by auto
  from ok one bad none show ?thesis by blast
qed

subsection \<open>A callback without signature headers\<close>

lemma find_map_advId:
  "find (\<lambda>a. advId a = i) (map (\<lambda>a. a\<lparr>endpointSecret := []\<rparr>) xs)
     = map_option (\<lambda>a. a\<lparr>endpointSecret := []\<rparr>) (find (\<lambda>a. advId a = i) xs)"
  by (induction xs) simp_all

lemma leadAdvertiser_clearSecrets:
  "leadAdvertiser (clearSecrets s) l
     = map_option (\<lambda>a. a\<lparr>endpointSecret := []\<rparr>) (leadAdvertiser s l)"
  by (simp add: leadAdvertiser_def clearSecrets_def find_map_advId split: option.splits)

lemma applyCallback_clearSecrets:
  "applyCallback e l (adv\<lparr>endpointSecret := []\<rparr>) tx st p sg (clearSecrets s)
     = clearSecrets (applyCallback e l adv tx st p sg s)"
  by (simp add: applyCallback_def Let_def clearSecrets_def recordCallback_def
        createCommission_def findCommission_def updateLead_def split: option.splits)

lemma callbackUpdate_env:
  "callbackUpdate (e\<lparr>createHmac := H, hmacAlgo := A\<rparr>) l st p = callbackUpdate e l st p"
  by (rule ext) (simp add: callbackUpdate_def Let_def)

lemma applyCallback_env:
  "applyCallback (e\<lparr>createHmac := H, hmacAlgo := A\<rparr>) l adv tx st p sg s
     = applyCallback e l adv tx st p sg s"
  by (simp add: applyCallback_def Let_def callbackUpdate_env)

lemma replayCache_applyCallback:
  "replayCache (applyCallback e l adv tx st p sg s) = replayCache s"
  by (simp add: applyCallback_def Let_def recordCallback_def createCommission_def updateLead_def
      split: option.splits)

text \<open>
  C10: for a callback whose lead's advertiser has a non-empty secret, when the
  \<open>X-Signature\<close> or the \<open>X-Signature-Timestamp\<close> header is absent (or empty) the
  handler answers \<open>{ ok: true }\<close> after the steps that follow the gate, applied to
  the store as it was: the replay cache is untouched, the outcome is the same whatever
  the keyed hash and the configured algorithm are, and it is the outcome of the same
  callback on the store without secrets.
\<close>

theorem missing_header_skips_gate:
  assumes "az_tx_id p = Some tx" and "tx \<noteq> []" and "cbStatus p = Some st" and "st \<noteq> []"
    and "findLeadByTx s tx = Some l" and "leadAdvertiser s l = Some adv"
    and "endpointSecret adv \<noteq> []"
    and "sg = None \<or> sg = Some [] \<or> ts = None \<or> ts = Some []"
  shows "handleCallback e p sg ts s = (JsonOk, applyCallback e l adv tx st p sg s)
    \<and> replayCache (snd (handleCallback e p sg ts s)) = replayCache s
    \<and> (\<forall>H A. handleCallback (e\<lparr>createHmac := H, hmacAlgo := A\<rparr>) p sg ts s
          = handleCallback e p sg ts s)
    \<and> handleCallback e p sg ts (clearSecrets s)
        = (JsonOk, clearSecrets (snd (handleCallback e p sg ts s)))"
proof -
  have skip: "\<And>e' s'. authenticate e' adv p sg ts s' = (None, s')"
    using assms(8) by (simp add: authenticate_skipped)
  have a: "\<And>e'. handleCallback e' p sg ts s = (JsonOk, applyCallback e' l adv tx st p sg s)"
    using handleCallback_found [OF assms(1-6)] by (simp add: skip)
  have tx': "findLeadByTx (clearSecrets s) tx = Some l"
    using assms(5) by (simp add: findLeadByTx_def clearSecrets_def)
  have adv': "leadAdvertiser (clearSecrets s) l = Some (adv\<lparr>endpointSecret := []\<rparr>)"
    using assms(6) by (simp add: leadAdvertiser_clearSecrets)
  have "handleCallback e p sg ts (clearSecrets s)
      = (JsonOk, applyCallback e l (adv\<lparr>endpointSecret := []\<rparr>) tx st p sg (clearSecrets s))"
    using handleCallback_found [OF assms(1-4) tx' adv', of e sg ts]
    by (simp add: authenticate_skipped)
  then have d: "handleCallback e p sg ts (clearSecrets s)
        = (JsonOk, clearSecrets (snd (handleCallback e p sg ts s)))"
    by (simp add: a applyCallback_clearSecrets)
  from a d show ?thesis
    by (simp add: replayCache_applyCallback applyCallback_env)
qed

theorem missing_header_skips_gate_witness:
  "findLeadByTx forwardedState ''tx-1'' = Some (demoLead\<lparr>status := Forwarded, advertiserId := Some ''adv-1''\<rparr>)
   \<and> leadAdvertiser forwardedState (demoLead\<lparr>status := Forwarded, advertiserId := Some ''adv-1''\<rparr>)
       = Some demoAdvertiser
   \<and> endpointSecret demoAdvertiser = ''s1''
   \<and> fst (handleCallback demoEnv demoPayload None (Some ''1700000000'') forwardedState) = JsonOk
   \<and> replayCache (snd (handleCallback demoEnv demoPayload None (Some ''1700000000'') forwardedState))
       = []"
proof -
  have p: "az_tx_id demoPayload = Some ''tx-1''" "cbStatus demoPayload = Some ''approved''"
    by (simp_all add: demoPayload_def)
  have l: "findLeadByTx forwardedState ''tx-1''
      = Some (demoLead\<lparr>status := Forwarded, advertiserId := Some ''adv-1''\<rparr>)"
    by code_simp
  have a: "leadAdvertiser forwardedState (demoLead\<lparr>status := Forwarded, advertiserId := Some ''adv-1''\<rparr>)
       = Some demoAdvertiser"
    by code_simp
  have s: "endpointSecret demoAdvertiser = ''s1''" by code_simp
  have r: "replayCache forwardedState = []" by code_simp
  have n: "''tx-1'' \<noteq> []" "''approved'' \<noteq> []" "endpointSecret demoAdvertiser \<noteq> []"
    by (simp_all add: s)
  have h: "None = None \<or> None = Some [] \<or> Some ''1700000000'' = None
      \<or> Some ''1700000000'' = Some []"
    by simp
  note th = missing_header_skips_gate [OF p(1) n(1) p(2) n(2) l a n(3) h, of demoEnv]
  from th have ok: "fst (handleCallback demoEnv demoPayload None (Some ''1700000000'')
      forwardedState) = JsonOk"
    by simp
  from th have "replayCache (snd (handleCallback demoEnv demoPayload None (Some ''1700000000'')
      forwardedState)) = replayCache forwardedState"
    by (rule conjunct1 [OF conjunct2])
  with l a s r ok show ?thesis by simp
qed

subsection \<open>One commission for a lead and advertiser\<close>

lemma find_map_preserve:
  assumes "\<And>x. P (g x) = P x"
  shows "find P (map g xs) = map_option g (find P xs)"
  by (induction xs) (simp_all add: assms)

lemma callbackUpdate_keeps:
  "azTxId (callbackUpdate e l st p x) = azTxId x"
  "leadId (callbackUpdate e l st p x) = leadId x"
  "advertiserId (callbackUpdate e l st p x) = advertiserId x"
  by (simp_all add: callbackUpdate_def Let_def split: option.splits)

lemma commissions_applyCallback:
  "commissions (applyCallback e l adv tx st p sg s) = commissions (createCommission l adv tx st p s)"
  by (simp add: applyCallback_def Let_def recordCallback_def createCommission_def
        findCommission_def updateLead_def split: option.splits)

lemma advertisers_applyCallback:
  "advertisers (applyCallback e l adv tx st p sg s) = advertisers s"
  by (simp add: applyCallback_def Let_def recordCallback_def createCommission_def updateLead_def
      split: option.splits)

lemma leads_applyCallback:
  "leads (applyCallback e l adv tx st p sg s)
     = map (\<lambda>x. if leadId x = leadId l then callbackUpdate e l st p x else x) (leads s)"
  by (simp add: applyCallback_def Let_def recordCallback_def createCommission_def updateLead_def
      split: option.splits)

lemma findLeadByTx_applyCallback:
  assumes "findLeadByTx s tx' = Some l"
  shows "findLeadByTx (applyCallback e l adv tx st p sg s) tx' = Some (callbackUpdate e l st p l)"
proof -
  have "find (\<lambda>x. azTxId x = tx')
          (map (\<lambda>x. if leadId x = leadId l then callbackUpdate e l st p x else x) (leads s))
        = map_option (\<lambda>x. if leadId x = leadId l then callbackUpdate e l st p x else x)
            (find (\<lambda>x. azTxId x = tx') (leads s))"
    by (rule find_map_preserve) (simp add: callbackUpdate_keeps)
  then show ?thesis
    using assms by (simp add: findLeadByTx_def leads_applyCallback)
qed

lemma authenticate_keeps:
  "commissions (snd (authenticate e adv p sg ts s)) = commissions s"
  "leads (snd (authenticate e adv p sg ts s)) = leads s"
  "advertisers (snd (authenticate e adv p sg ts s)) = advertisers s"
  by (subst authenticate_state, simp)+

lemma findCommission_None:
  "findCommission s l adv = None \<longleftrightarrow> commissionsFor s (leadId l) (advId adv) = []"
  by (auto simp: findCommission_def commissionsFor_def find_None_iff filter_empty_conv)

text \<open>
  C3, as the code has it. The claim says the second of two identical invocations is
  still acknowledged with \<open>{ ok: true }\<close>. For an advertiser with a secret, the
  identical callback carries the same timestamp and signature, and the replay gate
  rejects it with 400 before the ledger is looked at.
\<close>

theorem replayed_callback_not_acknowledged:
  "fst (handleCallback demoEnv demoPayload (Some demoSignature) (Some ''1700000000'') forwardedState)
     = JsonOk
   \<and> fst (handleCallback demoEnv demoPayload (Some demoSignature) (Some ''1700000000'')
        (snd (handleCallback demoEnv demoPayload (Some demoSignature) (Some ''1700000000'')
                forwardedState)))
     = ApiError 400 ''REPLAY_ATTACK'' ''Request has been processed before''"
  by code_simp

text \<open>
  C3, amended: after an accepted callback with status \<open>approved\<close> and a positive
  payout, for a lead and advertiser without a commission before, the ledger holds
  exactly one commission for the pair; a second invocation with the same payload,
  whatever its headers and time, leaves the ledger as it is, and its answer is the
  verdict of the signature and replay gate: \<open>{ ok: true }\<close> when the gate lets it
  through (always so when the advertiser has no secret or a header is absent), the
  gate's error otherwise.
\<close>

theorem commission_once:
  assumes first: "handleCallback e p sg ts s0 = (JsonOk, s1)"
    and az: "az_tx_id p = Some tx" and st: "cbStatus p = Some ''approved''"
    and pay: "cbPayout p = Some amt" and pos: "amt > 0"
    and l: "findLeadByTx s0 tx = Some l" and adv: "leadAdvertiser s0 l = Some adv"
    and none: "commissionsFor s0 (leadId l) (advId adv) = []"
  shows "length (commissionsFor s1 (leadId l) (advId adv)) = 1
    \<and> (\<forall>e' sg' ts'.
          commissions (snd (handleCallback e' p sg' ts' s1)) = commissions s1
          \<and> fst (handleCallback e' p sg' ts' s1)
              = (case fst (authenticate e' adv p sg' ts' s1) of None \<Rightarrow> JsonOk | Some err \<Rightarrow> err)
          \<and> (endpointSecret adv = [] \<or> sg' = None \<or> ts' = None
               \<longrightarrow> fst (handleCallback e' p sg' ts' s1) = JsonOk))"
proof -
  have txne: "tx \<noteq> []"
    using first az by (auto simp: handleCallback_def)
  have stne: "''approved'' \<noteq> []" by simp
  let ?sA = "snd (authenticate e adv p sg ts s0)"
  note h1 = handleCallback_found [OF az txne st stne l adv, of e sg ts]
  have pass: "fst (authenticate e adv p sg ts s0) = None"
  proof (cases "fst (authenticate e adv p sg ts s0)")
    case None
    then show ?thesis .
  next
    case (Some err)
    then have "JsonOk = err" using h1 first by simp
    then show ?thesis using authenticate_error [OF Some] by simp
  qed
  then have s1: "s1 = applyCallback e l adv tx ''approved'' p sg ?sA"
    using h1 first by simp
  have fc: "findCommission ?sA l adv = None"
    using none by (simp add: findCommission_None commissionsFor_def authenticate_keeps)
  define new where "new = \<lparr>comLeadId = Some (leadId l), comAdvertiserId = advId adv,
      comAffiliateId = affiliateId l, amount = amt,
      description = ''Conversion payout for '' @ tx\<rparr>"
  have c1: "commissions s1 = commissions s0 @ [new]"
    using pay pos fc
    by (simp add: s1 commissions_applyCallback createCommission_def authenticate_keeps new_def)
  have one: "commissionsFor s1 (leadId l) (advId adv) = [new]"
    using none by (simp add: commissionsFor_def c1) (simp add: new_def)
  let ?l' = "callbackUpdate e l ''approved'' p l"
  have l': "findLeadByTx s1 tx = Some ?l'"
    unfolding s1
    by (rule findLeadByTx_applyCallback)
       (simp add: findLeadByTx_def authenticate_keeps l [unfolded findLeadByTx_def])
  have adv': "leadAdvertiser s1 ?l' = Some adv"
    using adv
    by (simp add: leadAdvertiser_def s1 advertisers_applyCallback authenticate_keeps
          callbackUpdate_keeps split: option.splits)
  have found: "findCommission s1 ?l' adv \<noteq> None"
    using one by (simp add: findCommission_None callbackUpdate_keeps)
  have second: "commissions (snd (handleCallback e' p sg' ts' s1)) = commissions s1
          \<and> fst (handleCallback e' p sg' ts' s1)
              = (case fst (authenticate e' adv p sg' ts' s1) of None \<Rightarrow> JsonOk | Some err \<Rightarrow> err)
          \<and> (endpointSecret adv = [] \<or> sg' = None \<or> ts' = None
               \<longrightarrow> fst (handleCallback e' p sg' ts' s1) = JsonOk)" for e' sg' ts'
  proof -
    let ?sB = "snd (authenticate e' adv p sg' ts' s1)"
    note h2 = handleCallback_found [OF az txne st stne l' adv', of e' sg' ts']
    have fB: "findCommission ?sB ?l' adv \<noteq> None"
      using found by (simp add: findCommission_def authenticate_keeps)
    have a: "commissions (snd (handleCallback e' p sg' ts' s1)) = commissions s1"
    proof (cases "fst (authenticate e' adv p sg' ts' s1)")
      case None
      then show ?thesis
        using h2 fB pay
        by (auto simp: commissions_applyCallback createCommission_def authenticate_keeps)
    next
      case (Some err)
      then show ?thesis using h2 by (simp add: authenticate_keeps)
    qed
    have b: "fst (handleCallback e' p sg' ts' s1)
              = (case fst (authenticate e' adv p sg' ts' s1) of None \<Rightarrow> JsonOk | Some err \<Rightarrow> err)"
      using h2 by (simp split: option.splits)
    have c: "endpointSecret adv = [] \<or> sg' = None \<or> ts' = None
               \<longrightarrow> fst (handleCallback e' p sg' ts' s1) = JsonOk"
      using b by (auto simp: authenticate_skipped)
    from a b c show ?thesis by blast
  qed
  have len: "length (commissionsFor s1 (leadId l) (advId adv)) = 1"
    using one by simp
  from len second show ?thesis by blast
qed


theorem commission_once_witness:
  "fst (handleCallback demoEnv demoPayload None None forwardedState) = JsonOk
   \<and> commissionsFor forwardedState ''lead-1'' ''adv-1'' = []
   \<and> length (commissionsFor (snd (handleCallback demoEnv demoPayload None None forwardedState))
        ''lead-1'' ''adv-1'') = 1
   \<and> fst (handleCallback demoEnv demoPayload None None
        (snd (handleCallback demoEnv demoPayload None None forwardedState))) = JsonOk
   \<and> length (commissionsFor
        (snd (handleCallback demoEnv demoPayload None None
           (snd (handleCallback demoEnv demoPayload None None forwardedState))))
        ''lead-1'' ''adv-1'') = 1"
proof -
  let ?l = "demoLead\<lparr>status := Forwarded, advertiserId := Some ''adv-1''\<rparr>"
  let ?s1 = "snd (handleCallback demoEnv demoPayload None None forwardedState)"
  have ok: "fst (handleCallback demoEnv demoPayload None None forwardedState) = JsonOk"
    by code_simp
  then have first: "handleCallback demoEnv demoPayload None None forwardedState = (JsonOk, ?s1)"
    by (metis surjective_pairing)
  have p: "az_tx_id demoPayload = Some ''tx-1''" "cbStatus demoPayload = Some ''approved''"
    "cbPayout demoPayload = Some 25"
    by (simp_all add: demoPayload_def)
  have l: "findLeadByTx forwardedState ''tx-1'' = Some ?l" by code_simp
  have a: "leadAdvertiser forwardedState ?l = Some demoAdvertiser" by code_simp
  have ids: "leadId ?l = ''lead-1''" "advId demoAdvertiser = ''adv-1''"
    by (simp_all add: demoLead_def demoAdvertiser_def)
  have none: "commissionsFor forwardedState (leadId ?l) (advId demoAdvertiser) = []"
    by code_simp
  have pos: "(25 :: int) > 0" by simp
  note th = commission_once [OF first p(1) p(2) p(3) pos l a none]
  from th have one: "length (commissionsFor ?s1 ''lead-1'' ''adv-1'') = 1"
    by (simp add: ids)
  from th have same: "commissions (snd (handleCallback demoEnv demoPayload None None ?s1))
      = commissions ?s1"
    by blast
  from th have ok2: "fst (handleCallback demoEnv demoPayload None None ?s1) = JsonOk"
    by blast
  from same one have two: "length (commissionsFor
      (snd (handleCallback demoEnv demoPayload None None ?s1)) ''lead-1'' ''adv-1'') = 1"
    by (simp add: commissionsFor_def)
  from none have none': "commissionsFor forwardedState ''lead-1'' ''adv-1'' = []"
    by (simp add: ids)
  from ok none' one ok2 two show ?thesis by blast
qed

section \<open>Properties of the forward worker\<close>

lemma processForwardLead_deliver:
  assumes "find (\<lambda>x. leadId x = jobLeadId j) (leads s) = Some l" and "status l = Pending"
    and "findMapping s l = Some m"
    and "find (\<lambda>a. advId a = mapAdvertiserId m) (advertisers s) = Some adv"
    and "forwardHeaders e adv (requestPayload (fieldMappings s) l adv) = Some hs"
  shows "processForwardLead e j s =
     deliver e j adv (if forwardUrl m \<noteq> [] then forwardUrl m else endpointUrl adv) hs
       (requestPayload (fieldMappings s) l adv) s"
  using assms by (simp add: processForwardLead_def Let_def)

lemma catchBlock_result:
  "fst (catchBlock e j adv url hs body err s) = Threw err"
  "forwardLogs (snd (catchBlock e j adv url hs body err s)) =
     forwardLogs s @
       [\<lparr>logLeadId = jobLeadId j, attemptNo = attemptsMade j + 1, logUrl = url,
         logHeaders = hs, logBody = body, logResponse = ResponseError (errMessage err),
         statusCode = (case errStatus err of
                         None \<Rightarrow> None
                       | Some st \<Rightarrow> if st \<noteq> 0 then Some st else None)\<rparr>]"
  by (simp_all add: catchBlock_def Let_def updateLead_def recordForwardAttempt_def)

lemma deliver_rejected:
  assumes "axiosPost e url hs body = HttpResponse st rh dat" and "st < 500"
    and "\<not> (200 \<le> st \<and> st < 300)"
  shows "fst (deliver e j adv url hs body s)
      = Threw (JsError (''Advertiser returned '' @ decimal (int st) @ '': '' @ jsonStringify e dat) None)"
    and "forwardAttemptsTotal (snd (deliver e j adv url hs body s))
      = forwardAttemptsTotal s @ [(advId adv, ''client_error''), (advId adv, ''server_error'')]"
    and "list_all (\<lambda>x. leadId x = jobLeadId j \<longrightarrow> status x = ForwardFailed)
           (leads (snd (deliver e j adv url hs body s)))"
    and "map logResponse (drop (length (forwardLogs s)) (forwardLogs (snd (deliver e j adv url hs body s))))
      = [ResponseData st rh dat,
         ResponseError (''Advertiser returned '' @ decimal (int st) @ '': '' @ jsonStringify e dat)]"
  using assms
  by (auto simp: deliver_def catchBlock_def Let_def updateLead_def recordForwardAttempt_def
        markFailed_def list_all_iff)


lemma deliver_rows:
  "length (forwardLogs (snd (deliver e j adv url hs body s))) =
     length (forwardLogs s) +
       (case axiosPost e url hs body of
          NetworkError msg \<Rightarrow> 1
        | HttpResponse st rh dat \<Rightarrow>
            if st < 500 \<and> \<not> (200 \<le> st \<and> st < 300) then 2 else 1)"
  "list_all (\<lambda>r. attemptNo r = attemptsMade j + 1 \<and> logLeadId r = jobLeadId j
                \<and> logUrl r = url \<and> logHeaders r = hs \<and> logBody r = body)
     (drop (length (forwardLogs s)) (forwardLogs (snd (deliver e j adv url hs body s))))"
  by (auto simp: deliver_def catchBlock_def Let_def updateLead_def recordForwardAttempt_def
        split: http_outcome.splits)

text \<open>
  C2, what the code does. The claim says a forward answered with a 4xx (or any other
  status below 500 that is not 2xx) ends in \<open>forward_failed\<close> and signals no retry
  to the job layer. The lead does become \<open>forward_failed\<close>, but the branch then
  throws inside the \<open>try\<close>: the \<open>catch\<close> block counts the attempt as a
  \<open>server_error\<close> and throws the error again, so the processor fails the job, which
  is how a retry is signalled to the queue.
\<close>

theorem rejected_forward_throws:
  assumes "find (\<lambda>x. leadId x = jobLeadId j) (leads s) = Some l" and "status l = Pending"
    and "findMapping s l = Some m"
    and "find (\<lambda>a. advId a = mapAdvertiserId m) (advertisers s) = Some adv"
    and "forwardHeaders e adv (requestPayload (fieldMappings s) l adv) = Some hs"
    and "axiosPost e (if forwardUrl m \<noteq> [] then forwardUrl m else endpointUrl adv) hs
           (requestPayload (fieldMappings s) l adv) = HttpResponse st rh dat"
    and "st < 500" and "\<not> (200 \<le> st \<and> st < 300)"
  shows "fst (processForwardLead e j s)
      = Threw (JsError (''Advertiser returned '' @ decimal (int st) @ '': '' @ jsonStringify e dat) None)
    \<and> forwardAttemptsTotal (snd (processForwardLead e j s))
      = forwardAttemptsTotal s @ [(advId adv, ''client_error''), (advId adv, ''server_error'')]
    \<and> list_all (\<lambda>x. leadId x = jobLeadId j \<longrightarrow> status x = ForwardFailed)
         (leads (snd (processForwardLead e j s)))"
  using deliver_rejected(1-3) [OF assms(6-8)]
  by (simp add: processForwardLead_deliver [OF assms(1-5)])

theorem rejected_forward_throws_witness:
  "fst (processForwardLead demoEnv demoJob demoState)
     = Threw (JsError ''Advertiser returned 404: {\"error\":\"bad lead\"}'' None)
   \<and> forwardAttemptsTotal (snd (processForwardLead demoEnv demoJob demoState))
     = [(''adv-1'', ''client_error''), (''adv-1'', ''server_error'')]
   \<and> map status (leads (snd (processForwardLead demoEnv demoJob demoState))) = [ForwardFailed]"
proof -
  have l: "find (\<lambda>x. leadId x = jobLeadId demoJob) (leads demoState) = Some demoLead"
    by code_simp
  have p: "status demoLead = Pending" by code_simp
  have m: "findMapping demoState demoLead = Some demoMapping" by code_simp
  have a: "find (\<lambda>a. advId a = mapAdvertiserId demoMapping) (advertisers demoState)
      = Some demoAdvertiser"
    by code_simp
  have "forwardHeaders demoEnv demoAdvertiser
      (requestPayload (fieldMappings demoState) demoLead demoAdvertiser) \<noteq> None"
    by code_simp
  then obtain hs where hs: "forwardHeaders demoEnv demoAdvertiser
      (requestPayload (fieldMappings demoState) demoLead demoAdvertiser) = Some hs"
    by blast
  have r: "axiosPost demoEnv
      (if forwardUrl demoMapping \<noteq> [] then forwardUrl demoMapping else endpointUrl demoAdvertiser)
      hs (requestPayload (fieldMappings demoState) demoLead demoAdvertiser)
      = HttpResponse 404 [] (JObj [(''error'', JStr ''bad lead'')])"
    by (simp add: demoEnv_def)
  have c: "(404 :: nat) < 500" "\<not> (200 \<le> (404 :: nat) \<and> (404 :: nat) < 300)"
    by simp_all
  have msg: "''Advertiser returned '' @ decimal (int 404) @ '': ''
        @ jsonStringify demoEnv (JObj [(''error'', JStr ''bad lead'')])
      = ''Advertiser returned 404: {\"error\":\"bad lead\"}''"
    by code_simp
  have one: "length (leads (snd (processForwardLead demoEnv demoJob demoState))) = 1"
    by code_simp
  have ids: "advId demoAdvertiser = ''adv-1''" "forwardAttemptsTotal demoState = []"
    by (simp_all add: demoAdvertiser_def demoState_def)
  note th = rejected_forward_throws [OF l p m a hs r c]
  from th msg have t: "fst (processForwardLead demoEnv demoJob demoState)
     = Threw (JsError ''Advertiser returned 404: {\"error\":\"bad lead\"}'' None)"
    by simp
  from th ids have f: "forwardAttemptsTotal (snd (processForwardLead demoEnv demoJob demoState))
     = [(''adv-1'', ''client_error''), (''adv-1'', ''server_error'')]"
    by simp
  have st: "map status (leads (snd (processForwardLead demoEnv demoJob demoState))) = [ForwardFailed]"
    by code_simp
  from t f st show ?thesis by blast
qed

text \<open>
  C8, what the code does. The claim says exactly one forward log row is written for
  every delivery attempt. An attempt that reaches the POST writes one row when the
  answer is 2xx, when it is 5xx and when the transport fails, each with the attempt
  number and the request; for an answer below 500 that is not 2xx it writes two rows,
  the second from the \<open>catch\<close> block that the \<open>throw\<close> of that branch enters.
\<close>

theorem forward_log_rows:
  assumes "find (\<lambda>x. leadId x = jobLeadId j) (leads s) = Some l" and "status l = Pending"
    and "findMapping s l = Some m"
    and "find (\<lambda>a. advId a = mapAdvertiserId m) (advertisers s) = Some adv"
    and "forwardHeaders e adv (requestPayload (fieldMappings s) l adv) = Some hs"
    and "url = (if forwardUrl m \<noteq> [] then forwardUrl m else endpointUrl adv)"
    and "body = requestPayload (fieldMappings s) l adv"
  shows "length (forwardLogs (snd (processForwardLead e j s))) =
     length (forwardLogs s) +
       (case axiosPost e url hs body of
          NetworkError msg \<Rightarrow> 1
        | HttpResponse st rh dat \<Rightarrow>
            if st < 500 \<and> \<not> (200 \<le> st \<and> st < 300) then 2 else 1)
    \<and> list_all (\<lambda>r. attemptNo r = attemptsMade j + 1 \<and> logLeadId r = jobLeadId j
                \<and> logUrl r = url \<and> logHeaders r = hs \<and> logBody r = body)
         (drop (length (forwardLogs s)) (forwardLogs (snd (processForwardLead e j s))))"
  using deliver_rows [where e = e and j = j and adv = adv and url = url and hs = hs
      and body = body and s = s]
  by (simp add: processForwardLead_deliver [OF assms(1-5)] assms(6,7))

theorem forward_log_rows_witness:
  "map attemptNo (forwardLogs (snd (processForwardLead demoEnv demoJob demoState))) = [1, 1]
   \<and> map statusCode (forwardLogs (snd (processForwardLead demoEnv demoJob demoState)))
       = [Some 404, None]
   \<and> map logResponse (forwardLogs (snd (processForwardLead demoEnv demoJob demoState)))
       = [ResponseData 404 [] (JObj [(''error'', JStr ''bad lead'')]),
          ResponseError ''Advertiser returned 404: {\"error\":\"bad lead\"}'']
   \<and> length (forwardLogs (snd (processForwardLead demoEnv demoJob demoState))) = 2"
proof -
  have l: "find (\<lambda>x. leadId x = jobLeadId demoJob) (leads demoState) = Some demoLead"
    by code_simp
  have p: "status demoLead = Pending" by code_simp
  have m: "findMapping demoState demoLead = Some demoMapping" by code_simp
  have a: "find (\<lambda>a. advId a = mapAdvertiserId demoMapping) (advertisers demoState)
      = Some demoAdvertiser"
    by code_simp
  have "forwardHeaders demoEnv demoAdvertiser
      (requestPayload (fieldMappings demoState) demoLead demoAdvertiser) \<noteq> None"
    by code_simp
  then obtain hs where hs: "forwardHeaders demoEnv demoAdvertiser
      (requestPayload (fieldMappings demoState) demoLead demoAdvertiser) = Some hs"
    by blast
  have r: "\<And>url body. axiosPost demoEnv url hs body
      = HttpResponse 404 [] (JObj [(''error'', JStr ''bad lead'')])"
    by (simp add: demoEnv_def)
  have e: "forwardLogs demoState = []" by (simp add: demoState_def)
  from forward_log_rows [OF l p m a hs refl refl]
  have n: "length (forwardLogs (snd (processForwardLead demoEnv demoJob demoState))) = 2"
    by (simp add: r e)
  have rows: "map attemptNo (forwardLogs (snd (processForwardLead demoEnv demoJob demoState))) = [1, 1]
   \<and> map statusCode (forwardLogs (snd (processForwardLead demoEnv demoJob demoState)))
       = [Some 404, None]
   \<and> map logResponse (forwardLogs (snd (processForwardLead demoEnv demoJob demoState)))
       = [ResponseData 404 [] (JObj [(''error'', JStr ''bad lead'')]),
          ResponseError ''Advertiser returned 404: {\"error\":\"bad lead\"}'']"
    by code_simp
  from rows n show ?thesis by blast
qed

end
